theory Spec2Isabelle
  imports Main "HOL-Library.Word" "HOL-Library.AList"
begin

unbundle bit_operations_syntax

section \<open>Bytes and little-endian fields\<close>

text \<open>
  \<open>std::vector<uint8_t>\<close> and \<open>std::string\<close> are both sequences of bytes; the code
  converts freely between them, so one type stands for both.
\<close>

type_synonym byte = "8 word"
type_synonym bytes = "byte list"

text \<open>
  \<open>for(int i=0; i<n; i++) packet.push_back((v >> (i*8)) & 0xff);\<close>
  (sender.cpp, for the 4-byte sequence and the 8-byte timestamp).
\<close>

definition write_le :: "nat \<Rightarrow> 'a::len word \<Rightarrow> bytes" where
  "write_le n v = map (\<lambda>i. ucast (drop_bit (i * 8) v AND 0xff)) [0..<n]"

text \<open>
  \<open>for (int i = 0; i < n; i++) v |= (T(buffer[offset++]) << (i * 8));\<close>
  (receiver.cpp). For the 32-bit sequence the source shifts the promoted \<open>int\<close> and
  converts back to \<open>uint32_t\<close>; the bits are those of the 32-bit shift modelled here.
\<close>

definition read_le :: "nat \<Rightarrow> bytes \<Rightarrow> 'a::len word" where
  "read_le n buffer = foldl (\<lambda>v i. v OR push_bit (i * 8) (ucast (buffer ! i))) 0 [0..<n]"

section \<open>The wire frame\<close>

text \<open>
  The frame assembled at the end of \<open>SecureUdpSender::send\<close>:
  \<open>[SEQ(4B)][TIMESTAMP(8B)][NONCE(12B)][CIPHERTEXT][TAG(16B)]\<close>.
\<close>

definition build_packet :: "32 word \<Rightarrow> 64 word \<Rightarrow> bytes \<Rightarrow> bytes \<Rightarrow> bytes \<Rightarrow> bytes" where
  "build_packet currentSeq ts nonce cipherText tag =
     write_le 4 currentSeq @ write_le 8 ts @ nonce @ cipherText @ tag"

record frame =
  f_seq :: "32 word"
  f_timestamp :: "64 word"
  f_nonce :: bytes
  f_cipher :: bytes
  f_tag :: bytes

text \<open>
  The parsing part of \<open>SecureUdpReceiver::receiveThreadFunc\<close>, on the \<open>len\<close> bytes that
  \<open>recvfrom\<close> stored: the length check, then the fields at their offsets.
\<close>

definition decode_packet :: "bytes \<Rightarrow> frame option" where
  "decode_packet buffer =
     (let len = length buffer in
      if len < 4 + 8 + 12 + 16 then None
      else
        let cipherLen = len - 24 - 16 in
        Some \<lparr> f_seq = read_le 4 buffer,
               f_timestamp = read_le 8 (drop 4 buffer),
               f_nonce = take 12 (drop 12 buffer),
               f_cipher = take cipherLen (drop 24 buffer),
               f_tag = take 16 (drop (24 + cipherLen) buffer) \<rparr>)"

section \<open>The AEAD library\<close>

text \<open>
  AES-256-GCM itself is not code of this repository: one build calls libsodium, the other
  OpenSSL's EVP interface. The library is a parameter of the model. \<open>aead_encrypt\<close> takes
  key, nonce, associated data and plaintext and yields ciphertext and tag, or \<open>None\<close> when
  a library call reports failure; \<open>aead_decrypt\<close> takes key, nonce, associated data,
  ciphertext and tag and yields the plaintext, or \<open>None\<close> when a call fails or the tag
  does not verify.
\<close>

record aead =
  aead_encrypt :: "bytes \<Rightarrow> bytes \<Rightarrow> bytes \<Rightarrow> bytes \<Rightarrow> (bytes \<times> bytes) option"
  aead_decrypt :: "bytes \<Rightarrow> bytes \<Rightarrow> bytes \<Rightarrow> bytes \<Rightarrow> bytes \<Rightarrow> bytes option"

text \<open>The constants of libsodium's \<open>crypto_aead_aes256gcm.h\<close>.\<close>

definition crypto_aead_aes256gcm_KEYBYTES :: nat where
  "crypto_aead_aes256gcm_KEYBYTES = 32"

definition crypto_aead_aes256gcm_NPUBBYTES :: nat where
  "crypto_aead_aes256gcm_NPUBBYTES = 12"

definition crypto_aead_aes256gcm_ABYTES :: nat where
  "crypto_aead_aes256gcm_ABYTES = 16"

subsection \<open>secure\_udp/crypto/aes\_gcm.cpp (libsodium)\<close>

text \<open>
  Both size checks compare with \<open>crypto_aead_aes256gcm_KEYBYTES\<close>. The library is called
  with \<open>nullptr, 0\<close> for the associated data and reads \<open>NPUBBYTES\<close> bytes of the nonce;
  it writes ciphertext and tag as one buffer, which the wrapper splits 16 bytes from
  the end.
\<close>

definition aes_gcm_encrypt_sodium :: "aead \<Rightarrow> bytes \<Rightarrow> bytes \<Rightarrow> bytes \<Rightarrow> (bytes \<times> bytes) option" where
  "aes_gcm_encrypt_sodium L key nonce plaintext =
     (if length key \<noteq> crypto_aead_aes256gcm_KEYBYTES then None
      else if length nonce \<noteq> crypto_aead_aes256gcm_KEYBYTES then None
      else
        case aead_encrypt L key (take crypto_aead_aes256gcm_NPUBBYTES nonce) [] plaintext of
          None \<Rightarrow> None
        | Some (c, t) \<Rightarrow>
            let ciphertext = c @ t; clen = length ciphertext in
            Some (take (clen - crypto_aead_aes256gcm_ABYTES) ciphertext,
                  drop (clen - crypto_aead_aes256gcm_ABYTES) ciphertext))"

subsection \<open>The OpenSSL build's aes\_gcm.cpp\<close>

text \<open>
  \<open>aes_gcm_encrypt\<close> draws the nonce itself: \<open>nonce.resize(12); RAND_bytes(nonce.data(), 12)\<close>,
  the result of \<open>RAND_bytes\<close> unchecked. \<open>rnd\<close> is what \<open>RAND_bytes\<close> wrote (12 bytes when
  it succeeds). No length of the key is checked; OpenSSL reads 32 bytes of it and 12 of
  the nonce. No associated data is supplied between init and update. Any failing EVP
  call returns \<open>false\<close>.
\<close>

definition aes_gcm_encrypt_openssl :: "aead \<Rightarrow> bytes \<Rightarrow> bytes \<Rightarrow> bytes \<Rightarrow> (bytes \<times> bytes \<times> bytes) option" where
  "aes_gcm_encrypt_openssl L key plaintext rnd =
     (let nonce = take 12 (rnd @ replicate 12 0) in
      case aead_encrypt L (take 32 key) nonce [] plaintext of
        None \<Rightarrow> None
      | Some (ciphertext, tag) \<Rightarrow> Some (nonce, ciphertext, tag))"

definition aes_gcm_decrypt_openssl :: "aead \<Rightarrow> bytes \<Rightarrow> bytes \<Rightarrow> bytes \<Rightarrow> bytes \<Rightarrow> bytes option" where
  "aes_gcm_decrypt_openssl L key nonce ciphertext tag =
     aead_decrypt L (take 32 key) (take 12 nonce) [] ciphertext (take 16 tag)"

section \<open>The receiver\<close>

text \<open>
  One turn of the loop of \<open>receiveThreadFunc\<close> for one datagram. \<open>recvfrom\<close> stores at most
  the 1500 bytes of \<open>buffer\<close>. What the turn does to the outside is a list of events:
  the line on \<open>std::cerr\<close> with the sequence number, or the call of \<open>callback_\<close> when
  one is set.
\<close>

datatype rx_event = Decryption_failed "32 word" | Callback bytes

definition receive_datagram :: "aead \<Rightarrow> bytes \<Rightarrow> bool \<Rightarrow> bytes \<Rightarrow> rx_event list" where
  "receive_datagram L SHARED_KEY callback_set datagram =
     (let buffer = take 1500 datagram in
      case decode_packet buffer of
        None \<Rightarrow> []
      | Some f \<Rightarrow>
          (case aes_gcm_decrypt_openssl L SHARED_KEY (f_nonce f) (f_cipher f) (f_tag f) of
             None \<Rightarrow> [Decryption_failed (f_seq f)]
           | Some plaintext \<Rightarrow> if callback_set then [Callback plaintext] else []))"

text \<open>The loop over the datagrams that arrive while \<open>running_\<close> holds.\<close>

fun receiveThreadFunc :: "aead \<Rightarrow> bytes \<Rightarrow> bool \<Rightarrow> bytes list \<Rightarrow> rx_event list" where
  "receiveThreadFunc L SHARED_KEY callback_set [] = []"
| "receiveThreadFunc L SHARED_KEY callback_set (d # ds) =
     receive_datagram L SHARED_KEY callback_set d @ receiveThreadFunc L SHARED_KEY callback_set ds"

fun callbacks :: "rx_event list \<Rightarrow> bytes list" where
  "callbacks [] = []"
| "callbacks (Callback p # es) = p # callbacks es"
| "callbacks (Decryption_failed s # es) = callbacks es"

section \<open>The sender with the ledger of unacknowledged packets\<close>

record sender =
  m_seq :: "32 word"
  m_unackedPackets :: "(32 word \<times> bytes) list"
  m_running :: bool

text \<open>
  The members \<open>seq_\<close>, \<open>unackedPackets_\<close> and \<open>running_\<close> of the class (the socket and
  the address play no part here), named \<open>m_seq\<close>, \<open>m_unackedPackets\<close>, \<open>m_running\<close>.
  The constructor: \<open>seq_(0), running_(true)\<close>, an empty map.
\<close>

definition SecureUdpSender :: sender where
  "SecureUdpSender = \<lparr> m_seq = 0, m_unackedPackets = [], m_running = True \<rparr>"

text \<open>\<open>generateNonce\<close>: twelve draws of the byte distribution, \<open>dis i\<close> the i-th.\<close>

definition generateNonce :: "(nat \<Rightarrow> byte) \<Rightarrow> bytes" where
  "generateNonce dis = map dis [0..<12]"

text \<open>
  \<open>SecureUdpSender::send\<close>. It is compiled against \<open>aes_gcm.h\<close>'s
  \<open>aes_gcm_encrypt(key, nonce, plaintext, ciphertext, tag)\<close>, a parameter here;
  \<open>aes_gcm_encrypt_sodium\<close> is the definition with that signature in the repository.
  \<open>now\<close> is the millisecond count of the steady clock. \<open>unackedPackets_[currentSeq] = ...\<close>
  inserts, or overwrites the entry of the same key.
\<close>

definition send ::
  "(bytes \<Rightarrow> bytes \<Rightarrow> bytes \<Rightarrow> (bytes \<times> bytes) option) \<Rightarrow> bytes \<Rightarrow> 64 word \<Rightarrow> (nat \<Rightarrow> byte) \<Rightarrow>
     bytes \<Rightarrow> sender \<Rightarrow> bool \<times> sender" where
  "send aes_gcm_encrypt SHARED_KEY now dis data st =
     (let currentSeq = m_seq st;
          st1 = st\<lparr>m_seq := m_seq st + 1\<rparr>;
          nonce = generateNonce dis
      in case aes_gcm_encrypt SHARED_KEY nonce data of
           None \<Rightarrow> (False, st1)
         | Some (cipherText, tag) \<Rightarrow>
             (True, st1\<lparr>m_unackedPackets :=
                AList.update currentSeq (build_packet currentSeq now nonce cipherText tag)
                  (m_unackedPackets st1)\<rparr>))"

text \<open>
  \<open>stop\<close> clears the flag (and joins the thread and closes the socket); it leaves the map
  alone, which goes away with the object.
\<close>

definition stop :: "sender \<Rightarrow> sender" where
  "stop st = (if m_running st then st\<lparr>m_running := False\<rparr> else st)"

text \<open>
  One turn of the loop of \<open>sendThreadFunc\<close>, as the events of the thread in program order.
  \<open>st\<close> is the sender when the turn takes the lock; when the map is empty then, the
  thread waits on the condition variable and \<open>woken\<close> is the sender when the wait
  returns, the lock held again. The map is traversed in the order of the list.
\<close>

datatype tx_event = Lock | Wait | Sendto bytes | Unlock | Sleep_ms nat

definition sendThreadFunc_turn :: "sender \<Rightarrow> sender \<Rightarrow> tx_event list" where
  "sendThreadFunc_turn st woken =
     (if \<not> m_running st then []
      else
        let waited = (m_unackedPackets st = []);
            cur = (if waited then woken else st)
        in [Lock] @ (if waited then [Wait] else []) @
           (if \<not> m_running cur then [Unlock]
            else map (\<lambda>p. Sendto (snd p)) (m_unackedPackets cur) @ [Unlock, Sleep_ms 100]))"

section \<open>The sender of secure\_udp\_example\<close>

record example_sender =
  m_sequence :: "32 word"

text \<open>
  \<open>SecureUdpSender::send\<close> of secure\_udp\_example/net/sender.cpp: encrypt, then take the
  next sequence number, frame and \<open>sendto\<close>. The result is the datagram handed to
  \<open>sendto\<close>, if any. \<open>ts\<close> is the millisecond count of the system clock.
\<close>

definition example_send ::
  "aead \<Rightarrow> bytes \<Rightarrow> 64 word \<Rightarrow> bytes \<Rightarrow> bytes \<Rightarrow> example_sender \<Rightarrow> bytes option \<times> example_sender" where
  "example_send L SHARED_KEY ts rnd message st =
     (case aes_gcm_encrypt_openssl L SHARED_KEY message rnd of
        None \<Rightarrow> (None, st)
      | Some (nonce, ciphertext, tag) \<Rightarrow>
          (Some (build_packet (m_sequence st) ts nonce ciphertext tag),
           st\<lparr>m_sequence := m_sequence st + 1\<rparr>))"

section \<open>Consecutive calls\<close>

text \<open>
  A run of consecutive calls of \<open>send\<close> on one sender, each with the clock value, the
  draws of the nonce generator and the message of that call: the sender it leaves, and
  the value \<open>seq_.fetch_add(1)\<close> returned to each call (\<open>currentSeq\<close>).
\<close>

fun run_sends ::
  "(bytes \<Rightarrow> bytes \<Rightarrow> bytes \<Rightarrow> (bytes \<times> bytes) option) \<Rightarrow> bytes \<Rightarrow>
     (64 word \<times> (nat \<Rightarrow> byte) \<times> bytes) list \<Rightarrow> sender \<Rightarrow> sender" where
  "run_sends aes_gcm_encrypt SHARED_KEY [] st = st"
| "run_sends aes_gcm_encrypt SHARED_KEY ((now, dis, data) # calls) st =
     run_sends aes_gcm_encrypt SHARED_KEY calls (snd (send aes_gcm_encrypt SHARED_KEY now dis data st))"

fun assigned_seqs ::
  "(bytes \<Rightarrow> bytes \<Rightarrow> bytes \<Rightarrow> (bytes \<times> bytes) option) \<Rightarrow> bytes \<Rightarrow>
     (64 word \<times> (nat \<Rightarrow> byte) \<times> bytes) list \<Rightarrow> sender \<Rightarrow> 32 word list" where
  "assigned_seqs aes_gcm_encrypt SHARED_KEY [] st = []"
| "assigned_seqs aes_gcm_encrypt SHARED_KEY ((now, dis, data) # calls) st =
     m_seq st #
     assigned_seqs aes_gcm_encrypt SHARED_KEY calls (snd (send aes_gcm_encrypt SHARED_KEY now dis data st))"

text \<open>
  The datagrams that consecutive calls of the example sender hand to \<open>sendto\<close>, each call
  with its clock value, the bytes of \<open>RAND_bytes\<close> and its message.
\<close>

fun example_sends ::
  "aead \<Rightarrow> bytes \<Rightarrow> (64 word \<times> bytes \<times> bytes) list \<Rightarrow> example_sender \<Rightarrow> bytes list" where
  "example_sends L SHARED_KEY [] st = []"
| "example_sends L SHARED_KEY ((ts, rnd, message) # calls) st =
     (case fst (example_send L SHARED_KEY ts rnd message st) of
        None \<Rightarrow> example_sends L SHARED_KEY calls (snd (example_send L SHARED_KEY ts rnd message st))
      | Some packet \<Rightarrow>
          packet # example_sends L SHARED_KEY calls (snd (example_send L SHARED_KEY ts rnd message st)))"

section \<open>The mutex along the events of the retransmit thread\<close>

text \<open>
  Both functions follow the events of the thread with the flag "the thread holds
  \<open>mu_\<close>". \<open>cv_.wait(lock)\<close> gives the mutex up while blocked and returns with it held.
  \<open>io_while_locked\<close>: some \<open>sendto\<close> happens with the mutex held.
  \<open>all_io_locked\<close>: every \<open>sendto\<close> happens with the mutex held, and every sleep without.
\<close>

fun io_while_locked :: "bool \<Rightarrow> tx_event list \<Rightarrow> bool" where
  "io_while_locked held [] = False"
| "io_while_locked held (Lock # es) = io_while_locked True es"
| "io_while_locked held (Wait # es) = io_while_locked held es"
| "io_while_locked held (Sendto p # es) = (held \<or> io_while_locked held es)"
| "io_while_locked held (Unlock # es) = io_while_locked False es"
| "io_while_locked held (Sleep_ms n # es) = io_while_locked held es"

fun all_io_locked :: "bool \<Rightarrow> tx_event list \<Rightarrow> bool" where
  "all_io_locked held [] = True"
| "all_io_locked held (Lock # es) = all_io_locked True es"
| "all_io_locked held (Wait # es) = all_io_locked held es"
| "all_io_locked held (Sendto p # es) = (held \<and> all_io_locked held es)"
| "all_io_locked held (Unlock # es) = all_io_locked False es"
| "all_io_locked held (Sleep_ms n # es) = (\<not> held \<and> all_io_locked held es)"

section \<open>What is asked of the library\<close>

text \<open>
  A library is correct when decrypting what it encrypted, under the same key, nonce and
  associated data, gives the plaintext back, and its tags have 16 bytes.
\<close>

definition aead_correct :: "aead \<Rightarrow> bool" where
  "aead_correct L \<longleftrightarrow>
     (\<forall>k n ad m c t. aead_encrypt L k n ad m = Some (c, t) \<longrightarrow>
        length t = 16 \<and> aead_decrypt L k n ad c t = Some m)"

section \<open>A small library to run the code on\<close>

text \<open>
  To evaluate the code on explicit inputs the library has to be a concrete one. This
  one is a toy with the interface of an AEAD: it wants a 32-byte key and a 12-byte
  nonce, takes messages of at most 32 bytes, adds a pad to every byte, and its tag
  covers key, nonce, associated data and ciphertext, so that it does tell a changed
  associated data. Every theorem below that is not about explicit inputs holds for all
  libraries. Where a run of \<open>send\<close> on explicit inputs needs an encryption that accepts
  the twelve bytes of \<open>generateNonce\<close>, the encryption handed to \<open>send\<close> is the call of
  this library with no associated data.
\<close>

definition demo_pad :: "bytes \<Rightarrow> bytes \<Rightarrow> byte" where
  "demo_pad k n = sum_list (k @ n)"

definition demo_tag :: "bytes \<Rightarrow> bytes \<Rightarrow> bytes \<Rightarrow> bytes \<Rightarrow> bytes" where
  "demo_tag k n ad c = replicate 16 (sum_list (k @ n @ ad @ c))"

definition demo_aead :: aead where
  "demo_aead =
     \<lparr> aead_encrypt = (\<lambda>k n ad m.
         if length k = 32 \<and> length n = 12 \<and> length m \<le> 32
         then Some (map (\<lambda>b. b XOR demo_pad k n) m,
                    demo_tag k n ad (map (\<lambda>b. b XOR demo_pad k n) m))
         else None),
       aead_decrypt = (\<lambda>k n ad c t.
         if length k = 32 \<and> length n = 12 \<and> t = demo_tag k n ad c
         then Some (map (\<lambda>b. b XOR demo_pad k n) c)
         else None) \<rparr>"

definition demo_key :: bytes where
  "demo_key = map of_nat [0..<32]"

definition ping :: bytes where
  "ping = [0x70, 0x69, 0x6e, 0x67]"

text \<open>
  The datagram that the example sender makes of \<open>ping\<close> under \<open>demo_key\<close>, with
  sequence number 0, clock value 1000 and the nonce bytes 100, ..., 111.
\<close>

definition demo_nonce :: bytes where
  "demo_nonce = map of_nat [100..<112]"

definition demo_packet :: bytes where
  "demo_packet = build_packet 0 1000 demo_nonce [146, 139, 140, 133] (replicate 16 16)"

text \<open>
  A run that takes the counter once round: a new sender sends \<open>ping\<close> at clock value
  1000, which gets sequence number 0 (\<open>before_wrap\<close>); \<open>2 ^ 32 - 1\<close> further calls of
  \<open>send\<close> follow; then \<open>ping\<close> is sent again at clock value 2000 (\<open>after_wrap\<close>).
\<close>

definition wrap_calls :: "(64 word \<times> (nat \<Rightarrow> byte) \<times> bytes) list" where
  "wrap_calls = replicate (2 ^ 32 - 1) (1001, of_nat, ping)"

definition before_wrap :: sender where
  "before_wrap = snd (send (\<lambda>k n m. aead_encrypt demo_aead k n [] m) demo_key 1000 of_nat ping
     SecureUdpSender)"

definition after_wrap :: sender where
  "after_wrap = snd (send (\<lambda>k n m. aead_encrypt demo_aead k n [] m) demo_key 2000 of_nat ping
     (run_sends (\<lambda>k n m. aead_encrypt demo_aead k n [] m) demo_key wrap_calls before_wrap))"

section \<open>Little-endian fields: reading back what was written\<close>

lemma length_write_le: "length (write_le n v) = n"
  by (simp add: write_le_def)

lemma ff_is_mask: "(0xff :: 'a::len word) = mask 8"
  by (simp add: mask_eq_exp_minus_1)

lemma byte_of_word:
  "(ucast (ucast (drop_bit k v AND 0xff) :: byte) :: 'a::len word) = take_bit 8 (drop_bit k v)"
  unfolding ff_is_mask
  by (rule bit_word_eqI) (auto simp add: bit_simps)

lemma or_of_bytes:
  "foldl (\<lambda>a i. a OR push_bit (i * 8) (take_bit 8 (drop_bit (i * 8) v))) 0 [0..<n]
     = take_bit (n * 8) (v :: 'a::len word)"
proof (induction n)
  case 0
  show ?case by simp
next
  case (Suc n)
  have "take_bit (n * 8) v OR push_bit (n * 8) (take_bit 8 (drop_bit (n * 8) v))
          = take_bit (Suc n * 8) v"
    by (rule bit_word_eqI) (auto simp add: bit_simps)
  with Suc show ?case by simp
qed

lemma read_write_le: "read_le n (write_le n v) = take_bit (n * 8) (v :: 'a::len word)"
proof -
  have "read_le n (write_le n v)
      = foldl (\<lambda>a i. a OR push_bit (i * 8) (take_bit 8 (drop_bit (i * 8) v))) 0 [0..<n]"
    unfolding read_le_def
    by (rule foldl_cong) (simp_all add: write_le_def byte_of_word)
  then show ?thesis by (simp add: or_of_bytes)
qed

lemma read_le_append:
  "n \<le> length a \<Longrightarrow> (read_le n (a @ b) :: 'a::len word) = read_le n a"
  unfolding read_le_def
  by (rule foldl_cong) (simp_all add: nth_append)

lemma read_write_seq: "read_le 4 (write_le 4 (v :: 32 word) @ rest) = v"
  by (simp add: read_le_append length_write_le read_write_le take_bit_word_eq_self)

lemma read_write_timestamp: "read_le 8 (write_le 8 (v :: 64 word) @ rest) = v"
  by (simp add: read_le_append length_write_le read_write_le take_bit_word_eq_self)

section \<open>Failing encryption\<close>

lemma length_generateNonce: "length (generateNonce dis) = 12"
  by (simp add: generateNonce_def)

lemma send_None:
  "E K (generateNonce dis) data = None \<Longrightarrow>
   send E K now dis data st = (False, st\<lparr>m_seq := m_seq st + 1\<rparr>)"
  by (simp add: send_def Let_def)

lemma send_Some:
  "E K (generateNonce dis) data = Some (c, t) \<Longrightarrow>
   send E K now dis data st =
     (True, st\<lparr>m_seq := m_seq st + 1,
              m_unackedPackets :=
                AList.update (m_seq st) (build_packet (m_seq st) now (generateNonce dis) c t)
                  (m_unackedPackets st)\<rparr>)"
  by (simp add: send_def Let_def)

text \<open>
  C3. The claim: with a 32-byte key and a 12-byte nonce encryption succeeds for every
  plaintext. The libsodium wrapper compares the length of the nonce with
  \<open>crypto_aead_aes256gcm_KEYBYTES\<close>, so on the twelve bytes of \<open>generateNonce\<close> it
  returns \<open>false\<close> before the library is called, whatever the key, the plaintext and
  the library.
\<close>

theorem sodium_encrypt_rejects_12_byte_nonce:
  "aes_gcm_encrypt_sodium L demo_key (generateNonce dis) plaintext = None"
  by (simp add: aes_gcm_encrypt_sodium_def crypto_aead_aes256gcm_KEYBYTES_def
      length_generateNonce)

lemma send_with_sodium_fails:
  "send (aes_gcm_encrypt_sodium L) SHARED_KEY now dis data st
     = (False, st\<lparr>m_seq := m_seq st + 1\<rparr>)"
  by (rule send_None)
    (simp add: aes_gcm_encrypt_sodium_def crypto_aead_aes256gcm_KEYBYTES_def
      length_generateNonce)

text \<open>
  C6. When encryption fails, \<open>send\<close> returns \<open>false\<close>, the map of unacknowledged packets
  is the one before the call, and a turn of the retransmit loop sends exactly what it
  would have sent without the call.
\<close>

theorem failed_send_not_stored:
  "E K (generateNonce dis) data = None \<Longrightarrow>
     fst (send E K now dis data st) = False \<and>
     m_unackedPackets (snd (send E K now dis data st)) = m_unackedPackets st \<and>
     sendThreadFunc_turn (snd (send E K now dis data st)) woken = sendThreadFunc_turn st woken"
  by (simp add: send_None sendThreadFunc_turn_def Let_def)

theorem failed_send_not_stored_witness:
  "aes_gcm_encrypt_sodium demo_aead demo_key (generateNonce of_nat) ping = None \<and>
   fst (send (aes_gcm_encrypt_sodium demo_aead) demo_key 1000 of_nat ping
          \<lparr>m_seq = 1, m_unackedPackets = [(0, ping)], m_running = True\<rparr>) = False \<and>
   m_unackedPackets (snd (send (aes_gcm_encrypt_sodium demo_aead) demo_key 1000 of_nat ping
          \<lparr>m_seq = 1, m_unackedPackets = [(0, ping)], m_running = True\<rparr>)) = [(0, ping)] \<and>
   sendThreadFunc_turn (snd (send (aes_gcm_encrypt_sodium demo_aead) demo_key 1000 of_nat ping
          \<lparr>m_seq = 1, m_unackedPackets = [(0, ping)], m_running = True\<rparr>)) SecureUdpSender
     = [Lock, Sendto ping, Unlock, Sleep_ms 100]"
proof -
  have h: "aes_gcm_encrypt_sodium demo_aead demo_key (generateNonce of_nat) ping = None"
    by code_simp
  have t: "sendThreadFunc_turn \<lparr>m_seq = 1, m_unackedPackets = [(0, ping)], m_running = True\<rparr>
             SecureUdpSender
     = [Lock, Sendto ping, Unlock, Sleep_ms 100]"
    by (simp add: sendThreadFunc_turn_def)
  show ?thesis
    using h t failed_send_not_stored [where E = "aes_gcm_encrypt_sodium demo_aead"
        and K = demo_key and dis = of_nat and data = ping and now = 1000
        and woken = SecureUdpSender
        and st = "\<lparr>m_seq = 1, m_unackedPackets = [(0, ping)], m_running = True\<rparr>"]
    by simp
qed

section \<open>The map of unacknowledged packets along a run\<close>

lemma send_seq: "m_seq (snd (send E K now dis data st)) = m_seq st + 1"
  by (simp add: send_def Let_def split: option.split)

lemma send_running: "m_running (snd (send E K now dis data st)) = m_running st"
  by (simp add: send_def Let_def split: option.split)

lemma send_ledger:
  "map_of (m_unackedPackets (snd (send E K now dis data st))) =
     (case E K (generateNonce dis) data of
        None \<Rightarrow> map_of (m_unackedPackets st)
      | Some (c, t) \<Rightarrow>
          (map_of (m_unackedPackets st))
            (m_seq st \<mapsto> build_packet (m_seq st) now (generateNonce dis) c t))"
  by (simp add: send_def Let_def update_conv' split: option.split)

lemma send_ledger_other:
  "k \<noteq> m_seq st \<Longrightarrow>
   map_of (m_unackedPackets (snd (send E K now dis data st))) k = map_of (m_unackedPackets st) k"
  by (simp add: send_ledger split: option.split)

lemma send_ledger_dom:
  "dom (map_of (m_unackedPackets st)) \<subseteq> dom (map_of (m_unackedPackets (snd (send E K now dis data st))))"
  by (auto simp add: send_ledger split: option.split)

lemma run_sends_seq: "m_seq (run_sends E K cs st) = m_seq st + of_nat (length cs)"
  by (induction cs arbitrary: st) (auto simp add: send_seq)

lemma run_sends_running: "m_running (run_sends E K cs st) = m_running st"
proof (induction cs arbitrary: st)
  case Nil
  show ?case by simp
next
  case (Cons c cs)
  obtain now dis data where c: "c = (now, dis, data)" by (cases c)
  show ?case
    unfolding c run_sends.simps Cons.IH [of "snd (send E K now dis data st)"]
    by (rule send_running)
qed

lemma run_sends_dom:
  "dom (map_of (m_unackedPackets st)) \<subseteq> dom (map_of (m_unackedPackets (run_sends E K cs st)))"
proof (induction cs arbitrary: st)
  case Nil
  show ?case by simp
next
  case (Cons c cs)
  obtain now dis data where c: "c = (now, dis, data)" by (cases c)
  show ?case
    unfolding c run_sends.simps
    using send_ledger_dom [of st E K now dis data] Cons.IH [of "snd (send E K now dis data st)"]
    by (rule subset_trans)
qed

lemma run_sends_value:
  "length cs \<le> unat (k - m_seq st) \<Longrightarrow>
   map_of (m_unackedPackets (run_sends E K cs st)) k = map_of (m_unackedPackets st) k"
proof (induction cs arbitrary: st)
  case Nil
  show ?case by simp
next
  case (Cons c cs)
  obtain now dis data where c: "c = (now, dis, data)" by (cases c)
  let ?s = "snd (send E K now dis data st)"
  from Cons.prems have pos: "0 < unat (k - m_seq st)" by simp
  then have ne: "k \<noteq> m_seq st" by auto
  have e: "k - m_seq ?s = (k - m_seq st) - 1" by (simp add: send_seq)
  from pos have nz: "k - m_seq st \<noteq> 0" by auto
  have "unat (k - m_seq ?s) = unat (k - m_seq st) - 1"
    unfolding e by (rule unat_minus_one [OF nz])
  with Cons.prems have "length cs \<le> unat (k - m_seq ?s)" by simp
  from Cons.IH [OF this] send_ledger_other [OF ne, of E K now dis data]
  show ?case unfolding c run_sends.simps by simp
qed

lemma turn_sends_entry:
  "m_running st \<Longrightarrow> map_of (m_unackedPackets st) k = Some p \<Longrightarrow>
   Sendto p \<in> set (sendThreadFunc_turn st woken)"
proof -
  assume r: "m_running st" and m: "map_of (m_unackedPackets st) k = Some p"
  from m have "(k, p) \<in> set (m_unackedPackets st)" by (rule map_of_SomeD)
  then have "Sendto p \<in> (\<lambda>e. Sendto (snd e)) ` set (m_unackedPackets st)" by force
  moreover from m have "m_unackedPackets st \<noteq> []" by auto
  ultimately show ?thesis using r by (simp add: sendThreadFunc_turn_def Let_def)
qed

lemma stop_ledger: "m_unackedPackets (stop st) = m_unackedPackets st"
  by (simp add: stop_def)

lemma sent_packet_stored:
  "E K (generateNonce dis) data = Some (c, t) \<Longrightarrow>
   fst (send E K now dis data st) = True \<and>
   map_of (m_unackedPackets (snd (send E K now dis data st))) (m_seq st)
     = Some (build_packet (m_seq st) now (generateNonce dis) c t)"
  by (simp add: send_Some update_conv')

text \<open>
  C7. The claim: the entry of every successfully sent packet remains in the map until
  the sender is stopped. What holds: no call of \<open>send\<close> takes a key out of the map
  (a turn of the retransmit loop does not change the sender at all), and \<open>stop\<close> leaves
  the map as it is. A packet that \<open>send\<close> has sent successfully is stored under its
  sequence number, and through the following calls of \<open>send\<close>, fewer than \<open>2 ^ 32\<close> of
  them, the running sender keeps exactly these bytes under that number and every turn
  of the retransmit loop sends them. The calls are bounded because
  \<open>unackedPackets_[currentSeq] = ...\<close> stores the new packet under the old key once the
  32-bit counter has come round.
\<close>

theorem sent_packet_stays_until_wrap:
  "dom (map_of (m_unackedPackets st)) \<subseteq> dom (map_of (m_unackedPackets (run_sends E K calls st))) \<and>
   m_unackedPackets (stop st) = m_unackedPackets st \<and>
   (E K (generateNonce dis) data = Some (c, t) \<and> m_running st \<and> length calls < 2 ^ 32 \<longrightarrow>
      fst (send E K now dis data st) = True \<and>
      map_of (m_unackedPackets (snd (send E K now dis data st))) (m_seq st)
        = Some (build_packet (m_seq st) now (generateNonce dis) c t) \<and>
      m_running (run_sends E K calls (snd (send E K now dis data st))) \<and>
      map_of (m_unackedPackets (run_sends E K calls (snd (send E K now dis data st)))) (m_seq st)
        = Some (build_packet (m_seq st) now (generateNonce dis) c t) \<and>
      Sendto (build_packet (m_seq st) now (generateNonce dis) c t)
        \<in> set (sendThreadFunc_turn (run_sends E K calls (snd (send E K now dis data st))) woken))"
proof -
  let ?s1 = "snd (send E K now dis data st)"
  let ?sn = "run_sends E K calls ?s1"
  let ?p = "build_packet (m_seq st) now (generateNonce dis) c t"
  have a: "dom (map_of (m_unackedPackets st)) \<subseteq> dom (map_of (m_unackedPackets (run_sends E K calls st)))"
    by (rule run_sends_dom)
  have b: "m_unackedPackets (stop st) = m_unackedPackets st" by (rule stop_ledger)
  have c: "E K (generateNonce dis) data = Some (c, t) \<and> m_running st \<and> length calls < 2 ^ 32 \<longrightarrow>
      fst (send E K now dis data st) = True \<and>
      map_of (m_unackedPackets ?s1) (m_seq st) = Some ?p \<and>
      m_running ?sn \<and>
      map_of (m_unackedPackets ?sn) (m_seq st) = Some ?p \<and>
      Sendto ?p \<in> set (sendThreadFunc_turn ?sn woken)"
  proof
    assume h: "E K (generateNonce dis) data = Some (c, t) \<and> m_running st \<and> length calls < 2 ^ 32"
    from h sent_packet_stored [of E K dis data c t now st]
    have ok: "fst (send E K now dis data st) = True"
      and m1: "map_of (m_unackedPackets ?s1) (m_seq st) = Some ?p"
      by simp_all
    have r1: "m_running ?s1" using h by (simp add: send_running)
    have rn: "m_running ?sn" using r1 by (simp add: run_sends_running)
    have "m_seq st - m_seq ?s1 = - 1" by (simp add: send_seq)
    then have "unat (m_seq st - m_seq ?s1) = 2 ^ 32 - 1"
      by (simp add: unsigned_minus_1_eq_mask mask_eq_exp_minus_1)
    with h have "length calls \<le> unat (m_seq st - m_seq ?s1)" by simp
    then have "map_of (m_unackedPackets ?sn) (m_seq st) = map_of (m_unackedPackets ?s1) (m_seq st)"
      by (rule run_sends_value)
    with m1 have mn: "map_of (m_unackedPackets ?sn) (m_seq st) = Some ?p" by simp
    from rn mn have tn: "Sendto ?p \<in> set (sendThreadFunc_turn ?sn woken)"
      by (rule turn_sends_entry)
    from ok m1 rn mn tn
    show "fst (send E K now dis data st) = True \<and>
      map_of (m_unackedPackets ?s1) (m_seq st) = Some ?p \<and>
      m_running ?sn \<and>
      map_of (m_unackedPackets ?sn) (m_seq st) = Some ?p \<and>
      Sendto ?p \<in> set (sendThreadFunc_turn ?sn woken)"
      by (intro conjI)
  qed
  from a b c show ?thesis by (intro conjI)
qed

theorem sent_packet_stays_until_wrap_witness:
  "aead_encrypt demo_aead demo_key (generateNonce of_nat) [] ping
     = Some ([66, 91, 92, 85], replicate 16 128) \<and>
   m_running SecureUdpSender \<and>
   length [(1001 :: 64 word, (\<lambda>i. of_nat (i + 20)) :: nat \<Rightarrow> byte, replicate 33 0),
           (1002, \<lambda>i. of_nat (i + 50), ping)] < 2 ^ 32 \<and>
   fst (send (\<lambda>k n m. aead_encrypt demo_aead k n [] m) demo_key 1000 of_nat ping SecureUdpSender)
     = True \<and>
   map_of (m_unackedPackets
      (run_sends (\<lambda>k n m. aead_encrypt demo_aead k n [] m) demo_key
         [(1001, \<lambda>i. of_nat (i + 20), replicate 33 0), (1002, \<lambda>i. of_nat (i + 50), ping)]
         before_wrap)) 0
     = Some (build_packet 0 1000 (generateNonce of_nat) [66, 91, 92, 85] (replicate 16 128)) \<and>
   Sendto (build_packet 0 1000 (generateNonce of_nat) [66, 91, 92, 85] (replicate 16 128))
     \<in> set (sendThreadFunc_turn
         (run_sends (\<lambda>k n m. aead_encrypt demo_aead k n [] m) demo_key
            [(1001, \<lambda>i. of_nat (i + 20), replicate 33 0), (1002, \<lambda>i. of_nat (i + 50), ping)]
            before_wrap) SecureUdpSender)"
proof -
  let ?E = "\<lambda>k n m. aead_encrypt demo_aead k n [] m"
  let ?calls = "[(1001 :: 64 word, (\<lambda>i. of_nat (i + 20)) :: nat \<Rightarrow> byte, replicate 33 0),
           (1002, \<lambda>i. of_nat (i + 50), ping)]"
  have h: "aead_encrypt demo_aead demo_key (generateNonce of_nat) [] ping
     = Some ([66, 91, 92, 85], replicate 16 128)"
    by code_simp
  have r: "m_running SecureUdpSender" by (simp add: SecureUdpSender_def)
  have l: "length ?calls < 2 ^ 32" by simp
  have s0: "m_seq SecureUdpSender = 0" by (simp add: SecureUdpSender_def)
  note t = sent_packet_stays_until_wrap [where E = ?E and K = demo_key and st = SecureUdpSender
      and dis = of_nat and data = ping and c = "[66, 91, 92, 85]" and t = "replicate 16 128"
      and now = 1000 and calls = ?calls and woken = SecureUdpSender,
      unfolded s0, folded before_wrap_def]
  from t h r l have ok: "fst (send ?E demo_key 1000 of_nat ping SecureUdpSender) = True"
    by blast
  from t h r l have m: "map_of (m_unackedPackets (run_sends ?E demo_key ?calls before_wrap)) 0
     = Some (build_packet 0 1000 (generateNonce of_nat) [66, 91, 92, 85] (replicate 16 128))"
    by blast
  from t h r l have s: "Sendto (build_packet 0 1000 (generateNonce of_nat) [66, 91, 92, 85] (replicate 16 128))
     \<in> set (sendThreadFunc_turn (run_sends ?E demo_key ?calls before_wrap) SecureUdpSender)"
    by blast
  from h r l ok m s show ?thesis by (intro conjI)
qed

text \<open>
  After the run that takes the counter once round the sender is still running, and
  the entry under sequence number 0 is the packet of clock value 2000: the entry of
  the first packet has not remained.
\<close>

theorem sent_packet_replaced_after_wrap_counterexample:
  "fst (send (\<lambda>k n m. aead_encrypt demo_aead k n [] m) demo_key 1000 of_nat ping SecureUdpSender)
     = True \<and>
   map_of (m_unackedPackets before_wrap) 0
     = Some (build_packet 0 1000 (generateNonce of_nat) [66, 91, 92, 85] (replicate 16 128)) \<and>
   m_running after_wrap \<and>
   map_of (m_unackedPackets after_wrap) 0
     = Some (build_packet 0 2000 (generateNonce of_nat) [66, 91, 92, 85] (replicate 16 128)) \<and>
   map_of (m_unackedPackets after_wrap) 0 \<noteq> map_of (m_unackedPackets before_wrap) 0"
proof -
  let ?E = "\<lambda>k n m. aead_encrypt demo_aead k n [] m"
  let ?mid = "run_sends ?E demo_key wrap_calls before_wrap"
  have h: "?E demo_key (generateNonce of_nat) ping = Some ([66, 91, 92, 85], replicate 16 128)"
    by code_simp
  have s0: "m_seq SecureUdpSender = 0" "m_running SecureUdpSender"
    by (simp_all add: SecureUdpSender_def)
  from sent_packet_stored [of ?E demo_key of_nat ping "[66, 91, 92, 85]" "replicate 16 128" 1000
      SecureUdpSender, OF h]
  have ok: "fst (send ?E demo_key 1000 of_nat ping SecureUdpSender) = True"
    and m1: "map_of (m_unackedPackets before_wrap) 0
      = Some (build_packet 0 1000 (generateNonce of_nat) [66, 91, 92, 85] (replicate 16 128))"
    unfolding before_wrap_def s0 by simp_all
  have q1: "m_seq before_wrap = 1"
    unfolding before_wrap_def by (simp add: send_seq s0)
  have r1: "m_running before_wrap"
    unfolding before_wrap_def by (simp add: send_running s0)
  have q2: "m_seq ?mid = 0"
    by (simp add: run_sends_seq q1 wrap_calls_def)
  have r2: "m_running ?mid" using r1 by (simp add: run_sends_running)
  have r3: "m_running after_wrap"
    unfolding after_wrap_def using r2 by (simp add: send_running)
  from sent_packet_stored [of ?E demo_key of_nat ping "[66, 91, 92, 85]" "replicate 16 128" 2000
      ?mid, OF h]
  have m3: "map_of (m_unackedPackets after_wrap) 0
      = Some (build_packet 0 2000 (generateNonce of_nat) [66, 91, 92, 85] (replicate 16 128))"
    unfolding after_wrap_def q2 by simp
  have ne: "build_packet 0 2000 (generateNonce of_nat) [66, 91, 92, 85] (replicate 16 128)
      \<noteq> build_packet 0 1000 (generateNonce of_nat) [66, 91, 92, 85] (replicate 16 128)"
    by code_simp
  have d: "map_of (m_unackedPackets after_wrap) 0 \<noteq> map_of (m_unackedPackets before_wrap) 0"
    unfolding m3 m1 using ne by simp
  from ok m1 r3 m3 d show ?thesis by (intro conjI)
qed

section \<open>The receiver and the header\<close>

lemma decode_packet_alt:
  "decode_packet buf =
     (if length buf < 40 then None
      else Some \<lparr> f_seq = read_le 4 buf, f_timestamp = read_le 8 (drop 4 buf),
                  f_nonce = take 12 (drop 12 buf),
                  f_cipher = take (length buf - 40) (drop 12 (drop 12 buf)),
                  f_tag = take 16 (drop (length buf - 28) (drop 12 buf)) \<rparr>)"
  by (simp add: decode_packet_def Let_def)

lemma decode_packet_body:
  assumes "length a = length b" "drop 12 a = drop 12 b"
  shows "map_option (\<lambda>f. (f_nonce f, f_cipher f, f_tag f)) (decode_packet a)
       = map_option (\<lambda>f. (f_nonce f, f_cipher f, f_tag f)) (decode_packet b)"
  unfolding decode_packet_alt using assms by simp

lemma receive_datagram_alt:
  "callbacks (receive_datagram L K cb d) =
     (case map_option (\<lambda>f. (f_nonce f, f_cipher f, f_tag f)) (decode_packet (take 1500 d)) of
        None \<Rightarrow> []
      | Some (n, c, t) \<Rightarrow>
          (case aes_gcm_decrypt_openssl L K n c t of
             None \<Rightarrow> []
           | Some p \<Rightarrow> if cb then [p] else []))"
  by (simp add: receive_datagram_def Let_def split: option.split)

lemma receive_datagram_header:
  assumes "length a = length b" "drop 12 a = drop 12 b"
  shows "callbacks (receive_datagram L K cb a) = callbacks (receive_datagram L K cb b)"
proof -
  have l: "length (take 1500 a) = length (take 1500 b)" using assms(1) by simp
  have e: "drop 12 (take 1500 a) = drop 12 (take 1500 b)"
    using assms(2) by (simp add: drop_take)
  show ?thesis
    unfolding receive_datagram_alt decode_packet_body [OF l e] ..
qed

text \<open>
  C10. Two received datagrams of the same length that agree from byte 12 on, that is
  everywhere but in the sequence and timestamp fields, lead to the same calls of the
  callback: none for both, or one for each with the same plaintext.
\<close>

theorem header_fields_do_not_influence_delivery:
  "length d1 = length d2 \<Longrightarrow> drop 12 d1 = drop 12 d2 \<Longrightarrow>
     callbacks (receive_datagram L SHARED_KEY callback_set d1)
       = callbacks (receive_datagram L SHARED_KEY callback_set d2)"
  by (rule receive_datagram_header)

theorem header_fields_do_not_influence_delivery_witness:
  "length demo_packet = length (write_le 4 (7 :: 32 word) @ write_le 8 (5 :: 64 word) @ drop 12 demo_packet) \<and>
   drop 12 demo_packet = drop 12 (write_le 4 (7 :: 32 word) @ write_le 8 (5 :: 64 word) @ drop 12 demo_packet) \<and>
   callbacks (receive_datagram demo_aead demo_key True demo_packet) = [ping] \<and>
   callbacks (receive_datagram demo_aead demo_key True
       (write_le 4 (7 :: 32 word) @ write_le 8 (5 :: 64 word) @ drop 12 demo_packet)) = [ping]"
proof -
  have l: "length demo_packet = length (write_le 4 (7 :: 32 word) @ write_le 8 (5 :: 64 word) @ drop 12 demo_packet)"
    by (simp add: demo_packet_def build_packet_def length_write_le)
  have d: "drop 12 demo_packet = drop 12 (write_le 4 (7 :: 32 word) @ write_le 8 (5 :: 64 word) @ drop 12 demo_packet)"
    by (simp add: length_write_le)
  have c: "callbacks (receive_datagram demo_aead demo_key True demo_packet) = [ping]"
    by code_simp
  have c2: "callbacks (receive_datagram demo_aead demo_key True
       (write_le 4 (7 :: 32 word) @ write_le 8 (5 :: 64 word) @ drop 12 demo_packet)) = [ping]"
    unfolding header_fields_do_not_influence_delivery [OF l d, of demo_aead demo_key True, symmetric]
    by (rule c)
  from l d c c2 show ?thesis by (intro conjI)
qed

lemma receive_twice:
  "receiveThreadFunc L K cb [d, d] = receive_datagram L K cb d @ receive_datagram L K cb d"
  by simp

text \<open>
  C2. The claim: a valid packet delivered twice reaches the callback once. The loop
  keeps nothing from one datagram to the next and never looks at the sequence number
  or the timestamp it decoded, so the second delivery is processed like the first:
  the packet that the example sender makes of \<open>ping\<close>, delivered twice, calls the
  callback twice.
\<close>

theorem replayed_packet_is_delivered_twice:
  "fst (example_send demo_aead demo_key 1000 demo_nonce ping \<lparr>m_sequence = 0\<rparr>)
     = Some demo_packet \<and>
   callbacks (receiveThreadFunc demo_aead demo_key True [demo_packet, demo_packet]) = [ping, ping]"
  by code_simp

section \<open>Sequence numbers\<close>

text \<open>
  C9. Every call of \<open>send\<close> adds one to the counter, whether encryption succeeds or
  not. So when a failing call lies between two successful ones, the first packet is
  stored under the sequence number \<open>s\<close>, the second under \<open>s + 2\<close>, and the call in
  between leaves nothing under \<open>s + 1\<close>.
\<close>

theorem failed_send_consumes_sequence_number:
  "m_seq (snd (send E K now dis data st)) = m_seq st + 1 \<and>
   (E K (generateNonce dis1) d1 = Some (c1, t1) \<and>
    E K (generateNonce dis2) d2 = None \<and>
    E K (generateNonce dis3) d3 = Some (c3, t3) \<longrightarrow>
      (let st3 = run_sends E K [(n1, dis1, d1), (n2, dis2, d2), (n3, dis3, d3)] st in
       map_of (m_unackedPackets st3) (m_seq st)
         = Some (build_packet (m_seq st) n1 (generateNonce dis1) c1 t1) \<and>
       map_of (m_unackedPackets st3) (m_seq st + 1) = map_of (m_unackedPackets st) (m_seq st + 1) \<and>
       map_of (m_unackedPackets st3) (m_seq st + 2)
         = Some (build_packet (m_seq st + 2) n3 (generateNonce dis3) c3 t3) \<and>
       m_seq st + 2 \<noteq> m_seq st + 1))"
proof -
  have a: "m_seq (snd (send E K now dis data st)) = m_seq st + 1" by (rule send_seq)
  have b: "E K (generateNonce dis1) d1 = Some (c1, t1) \<and>
    E K (generateNonce dis2) d2 = None \<and>
    E K (generateNonce dis3) d3 = Some (c3, t3) \<longrightarrow>
      (let st3 = run_sends E K [(n1, dis1, d1), (n2, dis2, d2), (n3, dis3, d3)] st in
       map_of (m_unackedPackets st3) (m_seq st)
         = Some (build_packet (m_seq st) n1 (generateNonce dis1) c1 t1) \<and>
       map_of (m_unackedPackets st3) (m_seq st + 1) = map_of (m_unackedPackets st) (m_seq st + 1) \<and>
       map_of (m_unackedPackets st3) (m_seq st + 2)
         = Some (build_packet (m_seq st + 2) n3 (generateNonce dis3) c3 t3) \<and>
       m_seq st + 2 \<noteq> m_seq st + 1)"
  proof
    assume h: "E K (generateNonce dis1) d1 = Some (c1, t1) \<and>
      E K (generateNonce dis2) d2 = None \<and>
      E K (generateNonce dis3) d3 = Some (c3, t3)"
    let ?s1 = "snd (send E K n1 dis1 d1 st)"
    let ?s2 = "snd (send E K n2 dis2 d2 ?s1)"
    let ?s3 = "snd (send E K n3 dis3 d3 ?s2)"
    have q1: "m_seq ?s1 = m_seq st + 1" by (rule send_seq)
    have q2: "m_seq ?s2 = m_seq st + 2" by (simp add: send_seq)
    have l1: "map_of (m_unackedPackets ?s1) =
        (map_of (m_unackedPackets st))(m_seq st \<mapsto> build_packet (m_seq st) n1 (generateNonce dis1) c1 t1)"
      using h by (simp add: send_ledger)
    have l2: "map_of (m_unackedPackets ?s2) = map_of (m_unackedPackets ?s1)"
      using h by (simp add: send_ledger)
    have l3: "map_of (m_unackedPackets ?s3) =
        (map_of (m_unackedPackets ?s2))(m_seq st + 2 \<mapsto> build_packet (m_seq st + 2) n3 (generateNonce dis3) c3 t3)"
      using h q2 by (simp add: send_ledger)
    have r: "run_sends E K [(n1, dis1, d1), (n2, dis2, d2), (n3, dis3, d3)] st = ?s3" by simp
    show "let st3 = run_sends E K [(n1, dis1, d1), (n2, dis2, d2), (n3, dis3, d3)] st in
       map_of (m_unackedPackets st3) (m_seq st)
         = Some (build_packet (m_seq st) n1 (generateNonce dis1) c1 t1) \<and>
       map_of (m_unackedPackets st3) (m_seq st + 1) = map_of (m_unackedPackets st) (m_seq st + 1) \<and>
       map_of (m_unackedPackets st3) (m_seq st + 2)
         = Some (build_packet (m_seq st + 2) n3 (generateNonce dis3) c3 t3) \<and>
       m_seq st + 2 \<noteq> m_seq st + 1"
      unfolding Let_def r l3 l2 l1 by simp
  qed
  from a b show ?thesis ..
qed


theorem failed_send_consumes_sequence_number_witness:
  "aead_encrypt demo_aead demo_key (generateNonce of_nat) [] ping
     = Some ([66, 91, 92, 85], replicate 16 128) \<and>
   aead_encrypt demo_aead demo_key (generateNonce (\<lambda>i. of_nat (i + 20))) [] (replicate 33 0) = None \<and>
   aead_encrypt demo_aead demo_key (generateNonce (\<lambda>i. of_nat (i + 50))) [] ping
     = Some ([250, 227, 228, 237], replicate 16 56) \<and>
   (let st3 = run_sends (\<lambda>k n m. aead_encrypt demo_aead k n [] m) demo_key
        [(1000, of_nat, ping), (1001, \<lambda>i. of_nat (i + 20), replicate 33 0),
         (1002, \<lambda>i. of_nat (i + 50), ping)] SecureUdpSender
    in map_of (m_unackedPackets st3) 0
         = Some (build_packet 0 1000 (generateNonce of_nat) [66, 91, 92, 85] (replicate 16 128)) \<and>
       map_of (m_unackedPackets st3) 1 = None \<and>
       map_of (m_unackedPackets st3) 2
         = Some (build_packet 2 1002 (generateNonce (\<lambda>i. of_nat (i + 50)))
             [250, 227, 228, 237] (replicate 16 56)))"
proof -
  have h1: "aead_encrypt demo_aead demo_key (generateNonce of_nat) [] ping
     = Some ([66, 91, 92, 85], replicate 16 128)"
    by code_simp
  have h2: "aead_encrypt demo_aead demo_key (generateNonce (\<lambda>i. of_nat (i + 20))) []
      (replicate 33 0) = None"
    by code_simp
  have h3: "aead_encrypt demo_aead demo_key (generateNonce (\<lambda>i. of_nat (i + 50))) [] ping
     = Some ([250, 227, 228, 237], replicate 16 56)"
    by code_simp
  have s0: "m_seq SecureUdpSender = 0" "m_unackedPackets SecureUdpSender = []"
    by (simp_all add: SecureUdpSender_def)
  from h1 h2 h3
    failed_send_consumes_sequence_number [where E = "\<lambda>k n m. aead_encrypt demo_aead k n [] m"
      and K = demo_key and st = SecureUdpSender
      and ?dis1.0 = of_nat and ?d1.0 = ping and ?c1.0 = "[66, 91, 92, 85]" and ?t1.0 = "replicate 16 128"
      and ?dis2.0 = "\<lambda>i. of_nat (i + 20)" and ?d2.0 = "replicate 33 0"
      and ?dis3.0 = "\<lambda>i. of_nat (i + 50)" and ?d3.0 = ping and ?c3.0 = "[250, 227, 228, 237]"
      and ?t3.0 = "replicate 16 56" and ?n1.0 = 1000 and ?n2.0 = 1001 and ?n3.0 = 1002]
  show ?thesis
    unfolding s0 by (simp add: Let_def)
qed

lemma counting_from:
  "map (\<lambda>i. a + of_nat i) [0..<Suc n] = (a :: 32 word) # map (\<lambda>i. (a + 1) + of_nat i) [0..<n]"
proof -
  have "[0..<Suc n] = 0 # map Suc [0..<n]"
    by (simp add: upt_conv_Cons map_Suc_upt del: upt_Suc)
  then have "map (\<lambda>i. a + of_nat i) [0..<Suc n] = map (\<lambda>i. a + of_nat i) (0 # map Suc [0..<n])"
    by (rule arg_cong)
  also have "\<dots> = a # map (\<lambda>i. (a + 1) + of_nat i) [0..<n]"
    by (simp add: add.assoc)
  finally show ?thesis .
qed

lemma assigned_seqs_count:
  "assigned_seqs E K calls st = map (\<lambda>i. m_seq st + of_nat i) [0..<length calls]"
proof (induction calls arbitrary: st)
  case Nil
  show ?case by simp
next
  case (Cons c calls)
  obtain now dis data where c: "c = (now, dis, data)" by (cases c)
  have "assigned_seqs E K (c # calls) st =
      m_seq st # map (\<lambda>i. (m_seq st + 1) + of_nat i) [0..<length calls]"
    unfolding c by (simp add: Cons.IH send_seq del: upt_Suc)
  then show ?case
    using counting_from [of "m_seq st" "length calls"] by (simp del: upt_Suc)
qed

lemma counting_distinct:
  assumes "n \<le> 2 ^ 32"
  shows "distinct (map (\<lambda>i. (a :: 32 word) + of_nat i) [0..<n])"
proof -
  have "inj_on (\<lambda>i. a + (of_nat i :: 32 word)) {0..<n}"
  proof (rule inj_onI)
    fix i j
    assume i: "i \<in> {0..<n}" and j: "j \<in> {0..<n}"
      and e: "a + (of_nat i :: 32 word) = a + of_nat j"
    from e have "unat (of_nat i :: 32 word) = unat (of_nat j :: 32 word)" by simp
    moreover from i assms have "i < 2 ^ 32" by simp
    moreover from j assms have "j < 2 ^ 32" by simp
    ultimately show "i = j" by (simp add: unat_of_nat)
  qed
  then show ?thesis by (simp add: distinct_map)
qed

lemma example_send_packet:
  "fst (example_send L K ts rnd msg st) = Some p \<Longrightarrow>
     read_le 4 p = m_sequence st \<and> m_sequence (snd (example_send L K ts rnd msg st)) = m_sequence st + 1"
  by (auto simp add: example_send_def build_packet_def read_write_seq split: option.splits)

lemma example_send_none:
  "fst (example_send L K ts rnd msg st) = None \<Longrightarrow> snd (example_send L K ts rnd msg st) = st"
  by (auto simp add: example_send_def split: option.splits)

lemma example_sends_count:
  "map (read_le 4) (example_sends L K calls st)
     = map (\<lambda>i. m_sequence st + of_nat i) [0..<length (example_sends L K calls st)]"
proof (induction calls arbitrary: st)
  case Nil
  show ?case by simp
next
  case (Cons c calls)
  obtain ts rnd msg where c: "c = (ts, rnd, msg)" by (cases c)
  show ?case
  proof (cases "fst (example_send L K ts rnd msg st)")
    case None
    then show ?thesis
      unfolding c using Cons.IH [of st] by (simp add: example_send_none)
  next
    case (Some p)
    let ?s = "snd (example_send L K ts rnd msg st)"
    from example_send_packet [OF Some]
    have p: "read_le 4 p = m_sequence st" and q: "m_sequence ?s = m_sequence st + 1"
      by simp_all
    have "map (read_le 4) (example_sends L K (c # calls) st)
        = m_sequence st # map (\<lambda>i. (m_sequence st + 1) + of_nat i) [0..<length (example_sends L K calls ?s)]"
      unfolding c using Some p q Cons.IH [of ?s] by (simp del: upt_Suc)
    moreover have "length (example_sends L K (c # calls) st) = Suc (length (example_sends L K calls ?s))"
      unfolding c using Some by simp
    ultimately show ?thesis
      using counting_from [of "m_sequence st" "length (example_sends L K calls ?s)"]
      by (simp del: upt_Suc)
  qed
qed

text \<open>
  C5. The calls of \<open>send\<close> on one sender get the sequence numbers \<open>s\<close>, \<open>s + 1\<close>,
  \<open>s + 2\<close>, ... in 32-bit arithmetic, \<open>s\<close> the counter at the first call, and no number
  comes twice within \<open>2 ^ 32\<close> calls. The same holds for the sequence fields of the
  datagrams that the example sender sends, which takes a number only once the
  encryption has succeeded.
\<close>

theorem sequence_numbers_count_up:
  "assigned_seqs E K calls st = map (\<lambda>i. m_seq st + of_nat i) [0..<length calls] \<and>
   (length calls \<le> 2 ^ 32 \<longrightarrow> distinct (assigned_seqs E K calls st)) \<and>
   map (read_le 4) (example_sends L K calls' st')
     = map (\<lambda>i. m_sequence st' + of_nat i) [0..<length (example_sends L K calls' st')] \<and>
   (length (example_sends L K calls' st') \<le> 2 ^ 32 \<longrightarrow>
      distinct (map (read_le 4 :: bytes \<Rightarrow> 32 word) (example_sends L K calls' st')))"
proof -
  have a: "assigned_seqs E K calls st = map (\<lambda>i. m_seq st + of_nat i) [0..<length calls]"
    by (rule assigned_seqs_count)
  have b: "length calls \<le> 2 ^ 32 \<longrightarrow> distinct (assigned_seqs E K calls st)"
    unfolding a by (simp add: counting_distinct)
  have c: "map (read_le 4) (example_sends L K calls' st')
     = map (\<lambda>i. m_sequence st' + of_nat i) [0..<length (example_sends L K calls' st')]"
    by (rule example_sends_count)
  have d: "length (example_sends L K calls' st') \<le> 2 ^ 32 \<longrightarrow>
      distinct (map (read_le 4 :: bytes \<Rightarrow> 32 word) (example_sends L K calls' st'))"
    unfolding c by (simp add: counting_distinct)
  from a b c d show ?thesis by (intro conjI)
qed



theorem sequence_numbers_count_up_witness:
  "length [(1000 :: 64 word, (of_nat :: nat \<Rightarrow> byte), ping), (1001, of_nat, ping), (1002, of_nat, ping)]
     \<le> 2 ^ 32 \<and>
   assigned_seqs (aes_gcm_encrypt_sodium demo_aead) demo_key
     [(1000, of_nat, ping), (1001, of_nat, ping), (1002, of_nat, ping)]
     \<lparr>m_seq = 0xFFFFFFFE, m_unackedPackets = [], m_running = True\<rparr>
       = [0xFFFFFFFE, 0xFFFFFFFF, 0] \<and>
   distinct (assigned_seqs (aes_gcm_encrypt_sodium demo_aead) demo_key
     [(1000, of_nat, ping), (1001, of_nat, ping), (1002, of_nat, ping)]
     \<lparr>m_seq = 0xFFFFFFFE, m_unackedPackets = [], m_running = True\<rparr>) \<and>
   map (read_le 4) (example_sends demo_aead demo_key
     [(1000, demo_nonce, ping), (1001, demo_nonce, replicate 33 0), (1002, demo_nonce, ping)]
     \<lparr>m_sequence = 0xFFFFFFFF\<rparr>) = [0xFFFFFFFF, 0 :: 32 word] \<and>
   distinct (map (read_le 4 :: bytes \<Rightarrow> 32 word) (example_sends demo_aead demo_key
     [(1000, demo_nonce, ping), (1001, demo_nonce, replicate 33 0), (1002, demo_nonce, ping)]
     \<lparr>m_sequence = 0xFFFFFFFF\<rparr>))"
proof -
  let ?calls = "[(1000 :: 64 word, (of_nat :: nat \<Rightarrow> byte), ping), (1001, of_nat, ping),
    (1002, of_nat, ping)]"
  let ?st = "\<lparr>m_seq = 0xFFFFFFFE, m_unackedPackets = [], m_running = True\<rparr>"
  let ?calls' = "[(1000 :: 64 word, demo_nonce, ping), (1001, demo_nonce, replicate 33 0),
    (1002, demo_nonce, ping)]"
  let ?st' = "\<lparr>m_sequence = 0xFFFFFFFF\<rparr>"
  note t = sequence_numbers_count_up [where E = "aes_gcm_encrypt_sodium demo_aead"
      and K = demo_key and calls = ?calls and st = ?st and L = demo_aead
      and calls' = ?calls' and st' = ?st']
  have l: "length ?calls \<le> 2 ^ 32" by simp
  have n: "length (example_sends demo_aead demo_key ?calls' ?st') = 2" by code_simp
  from t have a: "assigned_seqs (aes_gcm_encrypt_sodium demo_aead) demo_key ?calls ?st
      = [0xFFFFFFFE, 0xFFFFFFFF, 0]"
    by (simp add: upt_rec)
  from t l have b: "distinct (assigned_seqs (aes_gcm_encrypt_sodium demo_aead) demo_key ?calls ?st)"
    by blast
  from t have "map (read_le 4) (example_sends demo_aead demo_key ?calls' ?st')
      = map (\<lambda>i. m_sequence ?st' + of_nat i) [0..<length (example_sends demo_aead demo_key ?calls' ?st')]"
    by blast
  then have c: "map (read_le 4) (example_sends demo_aead demo_key ?calls' ?st')
      = [0xFFFFFFFF, 0 :: 32 word]"
    unfolding n by (simp add: upt_rec)
  have n': "length (example_sends demo_aead demo_key ?calls' ?st') \<le> 2 ^ 32"
    unfolding n by simp
  from t n' have d: "distinct (map (read_le 4 :: bytes \<Rightarrow> 32 word)
      (example_sends demo_aead demo_key ?calls' ?st'))"
    by blast
  from l a b c d show ?thesis by (intro conjI)
qed

section \<open>The retransmit loop and the mutex\<close>

lemma all_io_locked_sends:
  "all_io_locked True (map (\<lambda>p. Sendto (snd p)) ps @ [Unlock, Sleep_ms 100])"
  by (induction ps) simp_all

lemma io_while_locked_sends:
  "ps \<noteq> [] \<Longrightarrow> io_while_locked True (map (\<lambda>p. Sendto (snd p)) ps @ es)"
  by (cases ps) simp_all

text \<open>
  C8. The claim: the loop copies the entries out under the lock and sends after
  releasing it. The loop takes \<open>mu_\<close>, calls \<open>sendto\<close> for every entry with the mutex
  held, and unlocks only after the last one, before it sleeps 100 ms. What holds for
  every turn: each \<open>sendto\<close> happens with the mutex held and the sleep without it; and
  a turn of a running sender with a non-empty map is the lock, one \<open>sendto\<close> per entry,
  the unlock and the sleep.
\<close>

theorem retransmit_sends_under_lock:
  "all_io_locked False (sendThreadFunc_turn st woken) \<and>
   (m_running st \<and> m_unackedPackets st \<noteq> [] \<longrightarrow>
      sendThreadFunc_turn st woken
        = [Lock] @ map (\<lambda>p. Sendto (snd p)) (m_unackedPackets st) @ [Unlock, Sleep_ms 100] \<and>
      io_while_locked False (sendThreadFunc_turn st woken))"
  by (simp add: sendThreadFunc_turn_def Let_def all_io_locked_sends io_while_locked_sends)

text \<open>
  With one packet in the map the turn is \<open>Lock, Sendto, Unlock, Sleep\<close>: network output
  while the mutex is held.
\<close>

theorem retransmit_io_while_locked_counterexample:
  "io_while_locked False
     (sendThreadFunc_turn \<lparr>m_seq = 1, m_unackedPackets = [(0, demo_packet)], m_running = True\<rparr>
        SecureUdpSender)"
  by (simp add: sendThreadFunc_turn_def)

theorem retransmit_sends_under_lock_witness:
  "m_running \<lparr>m_seq = 1, m_unackedPackets = [(0, ping)], m_running = True\<rparr> \<and>
   m_unackedPackets \<lparr>m_seq = 1, m_unackedPackets = [(0, ping)], m_running = True\<rparr> \<noteq> [] \<and>
   sendThreadFunc_turn \<lparr>m_seq = 1, m_unackedPackets = [(0, ping)], m_running = True\<rparr> SecureUdpSender
     = [Lock, Sendto ping, Unlock, Sleep_ms 100] \<and>
   all_io_locked False [Lock, Sendto ping, Unlock, Sleep_ms 100]"
  using retransmit_sends_under_lock
    [of "\<lparr>m_seq = 1, m_unackedPackets = [(0, ping)], m_running = True\<rparr>" SecureUdpSender]
  by simp

section \<open>Round trips\<close>


lemma decode_build_packet:
  assumes n: "length nonce = 12" and t: "length tag = 16"
  shows "decode_packet (build_packet sq ts nonce ct tag)
     = Some \<lparr> f_seq = sq, f_timestamp = ts, f_nonce = nonce, f_cipher = ct, f_tag = tag \<rparr>"
proof -
  let ?p = "build_packet sq ts nonce ct tag"
  have len: "length ?p = 40 + length ct"
    using n t by (simp add: build_packet_def length_write_le)
  have s: "read_le 4 ?p = sq"
    unfolding build_packet_def by (rule read_write_seq)
  have d4: "drop 4 ?p = write_le 8 ts @ nonce @ ct @ tag"
    by (simp add: build_packet_def length_write_le)
  have d12: "drop 12 ?p = nonce @ ct @ tag"
    by (simp add: build_packet_def length_write_le)
  have u: "read_le 8 (drop 4 ?p) = ts"
    unfolding d4 by (rule read_write_timestamp)
  have dd: "drop 12 (drop 12 ?p) = ct @ tag"
    unfolding d12 using n by simp
  have dt: "drop (length ?p - 28) (drop 12 ?p) = tag"
    unfolding d12 len using n by simp
  show ?thesis
    unfolding decode_packet_alt dd dt u s
    using n t len d12 by simp
qed

lemma openssl_roundtrip:
  assumes "aead_correct L" "aes_gcm_encrypt_openssl L key plaintext rnd = Some (nonce, ct, tag)"
  shows "aes_gcm_decrypt_openssl L key nonce ct tag = Some plaintext"
proof -
  define nn where "nn = take 12 (rnd @ replicate 12 0)"
  have ln: "length nn = 12" by (simp add: nn_def)
  from assms(2) have e: "aead_encrypt L (take 32 key) nn [] plaintext = Some (ct, tag)"
    and n: "nonce = nn"
    by (auto simp add: aes_gcm_encrypt_openssl_def Let_def nn_def split: option.splits)
  from assms(1) e have "length tag = 16 \<and> aead_decrypt L (take 32 key) nn [] ct tag = Some plaintext"
    unfolding aead_correct_def by blast
  with ln show ?thesis
    unfolding aes_gcm_decrypt_openssl_def n by simp
qed

lemma decode_packet_cipher_length:
  "decode_packet buf = Some f \<Longrightarrow> length (f_cipher f) \<le> length buf - 40"
  by (auto simp add: decode_packet_alt split: if_splits)

lemma received_frame_whole:
  "length nonce = 12 \<Longrightarrow> length tag = 16 \<Longrightarrow> length ct \<le> 1460 \<Longrightarrow>
   take 1500 (build_packet sq ts nonce ct tag) = build_packet sq ts nonce ct tag"
  by (simp add: build_packet_def length_write_le)

lemma demo_pad_twice: "(\<lambda>b. b XOR p) \<circ> (\<lambda>b. b XOR p) = (id :: byte \<Rightarrow> byte)"
  by (rule ext) (simp add: xor.assoc)

lemma demo_aead_correct: "aead_correct demo_aead"
  unfolding aead_correct_def demo_aead_def
  by (auto simp add: demo_tag_def demo_pad_twice split: if_splits)

text \<open>
  C4. The claim: decoding an encoded frame gives the fields back for all ciphertexts.
  The receiver decodes what \<open>recvfrom\<close> stored in its buffer of 1500 bytes. What holds:
  for a 12-byte nonce, a 16-byte tag and a ciphertext of at most 1460 bytes, parsing
  the received frame gives exactly the sequence number, timestamp, nonce, ciphertext
  and tag it was built from. And over a correct library, what \<open>aes_gcm_encrypt\<close> of the
  OpenSSL build returns for a 32-byte key, with the 12-byte nonce it drew, decrypts
  with \<open>aes_gcm_decrypt\<close> under the same key and nonce to the plaintext.
\<close>

theorem received_frame_and_cipher_roundtrip:
  "(length nonce = 12 \<and> length tag = 16 \<and> length ct \<le> 1460 \<longrightarrow>
      decode_packet (take 1500 (build_packet sq ts nonce ct tag))
        = Some \<lparr> f_seq = sq, f_timestamp = ts, f_nonce = nonce, f_cipher = ct, f_tag = tag \<rparr>) \<and>
   (aead_correct L \<and> length key = 32 \<and>
    aes_gcm_encrypt_openssl L key plaintext rnd = Some (n, c, t) \<longrightarrow>
      length n = 12 \<and> aes_gcm_decrypt_openssl L key n c t = Some plaintext)"
proof -
  have a: "length nonce = 12 \<and> length tag = 16 \<and> length ct \<le> 1460 \<longrightarrow>
      decode_packet (take 1500 (build_packet sq ts nonce ct tag))
        = Some \<lparr> f_seq = sq, f_timestamp = ts, f_nonce = nonce, f_cipher = ct, f_tag = tag \<rparr>"
    by (simp add: received_frame_whole decode_build_packet)
  have b: "aead_correct L \<and> length key = 32 \<and>
    aes_gcm_encrypt_openssl L key plaintext rnd = Some (n, c, t) \<longrightarrow>
      length n = 12 \<and> aes_gcm_decrypt_openssl L key n c t = Some plaintext"
  proof
    assume h: "aead_correct L \<and> length key = 32 \<and>
      aes_gcm_encrypt_openssl L key plaintext rnd = Some (n, c, t)"
    then have "n = take 12 (rnd @ replicate 12 0)"
      by (auto simp add: aes_gcm_encrypt_openssl_def Let_def split: option.splits)
    then have "length n = 12" by simp
    moreover from h have "aes_gcm_decrypt_openssl L key n c t = Some plaintext"
      by (blast intro: openssl_roundtrip)
    ultimately show "length n = 12 \<and> aes_gcm_decrypt_openssl L key n c t = Some plaintext" ..
  qed
  from a b show ?thesis ..
qed

theorem received_frame_and_cipher_roundtrip_witness:
  "length demo_nonce = 12 \<and> length (replicate 16 (16 :: byte)) = 16 \<and>
   length [146, 139, 140, 133 :: byte] \<le> 1460 \<and>
   decode_packet (take 1500 demo_packet)
     = Some \<lparr> f_seq = 0, f_timestamp = 1000, f_nonce = demo_nonce,
              f_cipher = [146, 139, 140, 133], f_tag = replicate 16 16 \<rparr> \<and>
   aead_correct demo_aead \<and> length demo_key = 32 \<and>
   aes_gcm_encrypt_openssl demo_aead demo_key ping demo_nonce
     = Some (demo_nonce, [146, 139, 140, 133], replicate 16 16) \<and>
   aes_gcm_decrypt_openssl demo_aead demo_key demo_nonce [146, 139, 140, 133] (replicate 16 16)
     = Some ping"
proof -
  have n: "length demo_nonce = 12" by (simp add: demo_nonce_def)
  have t: "length (replicate 16 (16 :: byte)) = 16" by simp
  have b: "length [146, 139, 140, 133 :: byte] \<le> 1460" by simp
  have k: "length demo_key = 32" by (simp add: demo_key_def)
  have e: "aes_gcm_encrypt_openssl demo_aead demo_key ping demo_nonce
     = Some (demo_nonce, [146, 139, 140, 133], replicate 16 16)"
    by code_simp
  note r = received_frame_and_cipher_roundtrip [where nonce = demo_nonce and tag = "replicate 16 16"
      and sq = 0 and ts = 1000 and ct = "[146, 139, 140, 133]" and L = demo_aead and key = demo_key
      and plaintext = ping and rnd = demo_nonce and n = demo_nonce and c = "[146, 139, 140, 133]"
      and t = "replicate 16 16"]
  from r n t b have d: "decode_packet (take 1500 demo_packet)
     = Some \<lparr> f_seq = 0, f_timestamp = 1000, f_nonce = demo_nonce,
              f_cipher = [146, 139, 140, 133], f_tag = replicate 16 16 \<rparr>"
    unfolding demo_packet_def by blast
  from r demo_aead_correct k e
  have p: "aes_gcm_decrypt_openssl demo_aead demo_key demo_nonce [146, 139, 140, 133]
      (replicate 16 16) = Some ping"
    by blast
  from n t b d demo_aead_correct k e p show ?thesis by (intro conjI)
qed

text \<open>
  A frame with a ciphertext of 1461 bytes has 1501 bytes; the receiver processes its
  first 1500 bytes only, and parsing those does not give the fields back.
\<close>

theorem long_frame_not_recovered_counterexample:
  "length demo_nonce = 12 \<and> length (replicate 16 (16 :: byte)) = 16 \<and>
   decode_packet (take 1500 (build_packet 0 1000 demo_nonce (replicate 1461 0) (replicate 16 16)))
     \<noteq> Some \<lparr> f_seq = 0, f_timestamp = 1000, f_nonce = demo_nonce,
               f_cipher = replicate 1461 0, f_tag = replicate 16 16 \<rparr> \<and>
   callbacks (receive_datagram demo_aead demo_key True
       (build_packet 0 1000 demo_nonce (replicate 1461 0) (replicate 16 16)))
     = callbacks (receive_datagram demo_aead demo_key True
       (take 1500 (build_packet 0 1000 demo_nonce (replicate 1461 0) (replicate 16 16))))"
proof -
  let ?d = "build_packet 0 1000 demo_nonce (replicate 1461 0) (replicate 16 16)"
  let ?f = "\<lparr> f_seq = 0, f_timestamp = 1000, f_nonce = demo_nonce,
               f_cipher = replicate 1461 0, f_tag = replicate 16 16 \<rparr>"
  have n: "length demo_nonce = 12" by (simp add: demo_nonce_def)
  have t: "length (replicate 16 (16 :: byte)) = 16" by simp
  have ne: "decode_packet (take 1500 ?d) \<noteq> Some ?f"
  proof
    assume "decode_packet (take 1500 ?d) = Some ?f"
    then have "length (f_cipher ?f) \<le> length (take 1500 ?d) - 40"
      by (rule decode_packet_cipher_length)
    then show False by simp
  qed
  have same: "callbacks (receive_datagram demo_aead demo_key True ?d)
     = callbacks (receive_datagram demo_aead demo_key True (take 1500 ?d))"
    by (simp add: receive_datagram_def)
  from n t ne same show ?thesis by (intro conjI)
qed

section \<open>The header and the authentication tag\<close>


lemma drop_header_build_packet:
  "drop 12 (build_packet sq ts nonce c t) = nonce @ c @ t"
  by (simp add: build_packet_def length_write_le)

lemma length_build_packet:
  "length (build_packet sq ts nonce c t) = 12 + length nonce + length c + length t"
  by (simp add: build_packet_def length_write_le)

text \<open>
  C1. The claim: sequence number and timestamp are passed as associated data, so that
  changing them makes decryption fail. Both builds hand the library no associated
  data. What holds instead: everything after the 12 header bytes of a packet of the
  example sender is the same whatever the sequence number and the timestamp; a packet
  whose 12 header bytes are replaced is treated by the receiver like the original;
  what the libsodium wrapper returns is the library's output for empty associated
  data; and the packet that \<open>send\<close> stores is the two header fields followed by nonce,
  ciphertext and tag as \<open>aes_gcm_encrypt\<close> returned them for key, nonce and message.
\<close>

theorem header_is_not_associated_data:
  "map_option (drop 12) (fst (example_send L K ts rnd msg st))
     = map_option (drop 12) (fst (example_send L K ts' rnd msg st')) \<and>
   (fst (example_send L K ts rnd msg st) = Some p \<and> length h = 12 \<longrightarrow>
      callbacks (receive_datagram L K cb (h @ drop 12 p)) = callbacks (receive_datagram L K cb p)) \<and>
   (aes_gcm_encrypt_sodium L key nonce pt = Some (c, t) \<longrightarrow>
      (\<exists>c0 t0. aead_encrypt L key (take 12 nonce) [] pt = Some (c0, t0) \<and> c @ t = c0 @ t0)) \<and>
   (E K (generateNonce dis) data = Some (c', t') \<longrightarrow>
      map_of (m_unackedPackets (snd (send E K now dis data su))) (m_seq su)
        = Some (write_le 4 (m_seq su) @ write_le 8 now @ generateNonce dis @ c' @ t'))"
proof -
  have a: "map_option (drop 12) (fst (example_send L K ts rnd msg st))
     = map_option (drop 12) (fst (example_send L K ts' rnd msg st'))"
    by (simp add: example_send_def drop_header_build_packet split: option.split)
  have b: "fst (example_send L K ts rnd msg st) = Some p \<and> length h = 12 \<longrightarrow>
      callbacks (receive_datagram L K cb (h @ drop 12 p)) = callbacks (receive_datagram L K cb p)"
  proof
    assume h: "fst (example_send L K ts rnd msg st) = Some p \<and> length h = 12"
    then have "12 \<le> length p"
      by (auto simp add: example_send_def length_build_packet split: option.splits)
    with h have "length (h @ drop 12 p) = length p" "drop 12 (h @ drop 12 p) = drop 12 p"
      by simp_all
    then show "callbacks (receive_datagram L K cb (h @ drop 12 p))
        = callbacks (receive_datagram L K cb p)"
      by (rule receive_datagram_header)
  qed
  have c: "aes_gcm_encrypt_sodium L key nonce pt = Some (c, t) \<longrightarrow>
      (\<exists>c0 t0. aead_encrypt L key (take 12 nonce) [] pt = Some (c0, t0) \<and> c @ t = c0 @ t0)"
  proof
    assume h: "aes_gcm_encrypt_sodium L key nonce pt = Some (c, t)"
    then obtain c0 t0 where e: "aead_encrypt L key (take 12 nonce) [] pt = Some (c0, t0)"
      and ct: "c = take (length (c0 @ t0) - 16) (c0 @ t0)" "t = drop (length (c0 @ t0) - 16) (c0 @ t0)"
      unfolding aes_gcm_encrypt_sodium_def Let_def crypto_aead_aes256gcm_NPUBBYTES_def
        crypto_aead_aes256gcm_ABYTES_def
      by (auto split: if_splits option.splits simp del: take_append drop_append length_append)
    have "c @ t = c0 @ t0" unfolding ct by (rule append_take_drop_id)
    with e show "\<exists>c0 t0. aead_encrypt L key (take 12 nonce) [] pt = Some (c0, t0) \<and> c @ t = c0 @ t0"
      by blast
  qed
  have d: "E K (generateNonce dis) data = Some (c', t') \<longrightarrow>
      map_of (m_unackedPackets (snd (send E K now dis data su))) (m_seq su)
        = Some (write_le 4 (m_seq su) @ write_le 8 now @ generateNonce dis @ c' @ t')"
    by (simp add: send_ledger build_packet_def)
  from a b c d show ?thesis by (intro conjI)
qed


theorem header_is_not_associated_data_witness:
  "fst (example_send demo_aead demo_key 1000 demo_nonce ping \<lparr>m_sequence = 0\<rparr>) = Some demo_packet \<and>
   length (write_le 4 (3 :: 32 word) @ write_le 8 (77 :: 64 word)) = 12 \<and>
   callbacks (receive_datagram demo_aead demo_key True
      ((write_le 4 (3 :: 32 word) @ write_le 8 (77 :: 64 word)) @ drop 12 demo_packet)) = [ping] \<and>
   aes_gcm_encrypt_sodium demo_aead demo_key (replicate 32 1) ping
     = Some ([140, 149, 146, 155], replicate 16 74) \<and>
   (\<exists>c0 t0. aead_encrypt demo_aead demo_key (take 12 (replicate 32 1)) [] ping = Some (c0, t0) \<and>
      [140, 149, 146, 155] @ replicate 16 74 = c0 @ t0) \<and>
   aead_encrypt demo_aead demo_key (generateNonce of_nat) [] ping
     = Some ([66, 91, 92, 85], replicate 16 128) \<and>
   map_of (m_unackedPackets (snd (send (\<lambda>k n m. aead_encrypt demo_aead k n [] m) demo_key 1000
      of_nat ping SecureUdpSender))) (m_seq SecureUdpSender)
     = Some (write_le 4 (m_seq SecureUdpSender) @ write_le 8 (1000 :: 64 word) @ generateNonce of_nat @
         [66, 91, 92, 85] @ replicate 16 128)"
proof -
  note r = header_is_not_associated_data [where L = demo_aead and K = demo_key and ts = 1000
      and rnd = demo_nonce and msg = ping and st = "\<lparr>m_sequence = 0\<rparr>" and p = demo_packet
      and h = "write_le 4 (3 :: 32 word) @ write_le 8 (77 :: 64 word)" and cb = True
      and key = demo_key and nonce = "replicate 32 1" and pt = ping
      and c = "[140, 149, 146, 155]" and t = "replicate 16 74"
      and E = "\<lambda>k n m. aead_encrypt demo_aead k n [] m" and dis = of_nat and data = ping
      and c' = "[66, 91, 92, 85]" and t' = "replicate 16 128" and now = 1000
      and su = SecureUdpSender]
  have h1: "fst (example_send demo_aead demo_key 1000 demo_nonce ping \<lparr>m_sequence = 0\<rparr>)
      = Some demo_packet"
    by code_simp
  have h2: "length (write_le 4 (3 :: 32 word) @ write_le 8 (77 :: 64 word)) = 12"
    by (simp add: length_write_le)
  have h3: "aes_gcm_encrypt_sodium demo_aead demo_key (replicate 32 1) ping
     = Some ([140, 149, 146, 155], replicate 16 74)"
    by code_simp
  have h4: "aead_encrypt demo_aead demo_key (generateNonce of_nat) [] ping
     = Some ([66, 91, 92, 85], replicate 16 128)"
    by code_simp
  have o: "callbacks (receive_datagram demo_aead demo_key True demo_packet) = [ping]"
    by code_simp
  from r h1 h2 have "callbacks (receive_datagram demo_aead demo_key True
      ((write_le 4 (3 :: 32 word) @ write_le 8 (77 :: 64 word)) @ drop 12 demo_packet))
        = callbacks (receive_datagram demo_aead demo_key True demo_packet)"
    by blast
  then have c2: "callbacks (receive_datagram demo_aead demo_key True
      ((write_le 4 (3 :: 32 word) @ write_le 8 (77 :: 64 word)) @ drop 12 demo_packet)) = [ping]"
    unfolding o .
  from r h3 have c3: "\<exists>c0 t0. aead_encrypt demo_aead demo_key (take 12 (replicate 32 1)) [] ping
        = Some (c0, t0) \<and> [140, 149, 146, 155] @ replicate 16 74 = c0 @ t0"
    by blast
  from r h4 have c4: "map_of (m_unackedPackets (snd (send (\<lambda>k n m. aead_encrypt demo_aead k n [] m)
      demo_key 1000 of_nat ping SecureUdpSender))) (m_seq SecureUdpSender)
     = Some (write_le 4 (m_seq SecureUdpSender) @ write_le 8 (1000 :: 64 word) @ generateNonce of_nat @
         [66, 91, 92, 85] @ replicate 16 128)"
    by blast
  from h1 h2 c2 h3 c3 h4 c4 show ?thesis by (intro conjI)
qed

text \<open>
  The packet of \<open>ping\<close> with its sequence number changed from 0 to 9 and its timestamp
  from 1000 to 0 is decrypted and delivered, although the toy library rejects the
  packet's tag when it is given the header as associated data.
\<close>

theorem modified_header_is_accepted_counterexample:
  "fst (example_send demo_aead demo_key 1000 demo_nonce ping \<lparr>m_sequence = 0\<rparr>) = Some demo_packet \<and>
   write_le 4 (9 :: 32 word) @ write_le 8 (0 :: 64 word) \<noteq> take 12 demo_packet \<and>
   receive_datagram demo_aead demo_key True
     (write_le 4 (9 :: 32 word) @ write_le 8 (0 :: 64 word) @ drop 12 demo_packet) = [Callback ping] \<and>
   aead_decrypt demo_aead demo_key demo_nonce (take 12 demo_packet) [146, 139, 140, 133]
     (replicate 16 16) = None"
  by code_simp

end
